theory Spec2Isabelle
  imports Main "HOL-Library.Word"
begin

section \<open>Bytes, outcomes and the serializer values\<close>

type_synonym byte = "8 word"
type_synonym bytes = "byte list"

text \<open>
  A Go call either returns or panics. A panic unwinds the whole commit, so every caller
  passes it on unchanged.
\<close>

datatype 'a outcome = Panic string | Ret 'a

text \<open>
  Modelled from the spec: the list/byte-string serializer is an external collaborator
  (package fastrlp) whose source is not part of the repository. A value is a byte string,
  a list of values, or the null marker. Every value except the shared null marker is
  allocated in an arena; the type parameter records which one, so that values that differ
  only in where they live can be compared after \<open>map_rvalue (\<lambda>_. ())\<close>.
  Lengths are Go \<open>uint64\<close>; they count bytes held in memory and are modelled as \<open>nat\<close>.
\<close>

datatype 'a rvalue = VBytes 'a bytes | VArray 'a "'a rvalue list" | VNull

datatype rtype = TypeArray | TypeBytes | TypeNull

fun Type :: "'a rvalue \<Rightarrow> rtype" where
  "Type (VBytes a b) = TypeBytes"
| "Type (VArray a xs) = TypeArray"
| "Type VNull = TypeNull"

fun Raw :: "'a rvalue \<Rightarrow> bytes" where
  "Raw (VBytes a b) = b"
| "Raw (VArray a xs) = []"
| "Raw VNull = []"


definition intsize :: "nat \<Rightarrow> nat" where
  "intsize val =
     (if val < 2 ^ 8 then 1 else if val < 2 ^ 16 then 2 else if val < 2 ^ 24 then 3
      else if val < 2 ^ 32 then 4 else if val < 2 ^ 40 then 5 else if val < 2 ^ 48 then 6
      else if val < 2 ^ 56 then 7 else 8)"

text \<open>The encoded size of a value: one byte for null, header plus payload otherwise.\<close>

fun fullLen :: "'a rvalue \<Rightarrow> nat" where
  "fullLen VNull = 1"
| "fullLen (VArray a xs) =
     (let size = sum_list (map fullLen xs)
      in if size < 56 then 1 + size else 1 + intsize size + size)"
| "fullLen (VBytes a b) =
     (let size = length b
      in if size = 1 \<and> hd b \<le> 0x7F then 1
         else if size < 56 then 1 + size
         else 1 + intsize size + size)"

text \<open>The field \<open>l\<close> of a value: the byte count, or for a list the sum of the encoded
  sizes of the items set so far.\<close>

fun vl :: "'a rvalue \<Rightarrow> nat" where
  "vl (VBytes a b) = length b"
| "vl (VArray a xs) = sum_list (map fullLen xs)"
| "vl VNull = 0"

fun Len :: "'a rvalue \<Rightarrow> nat" where
  "Len (VArray a xs) = vl (VArray a xs) + intsize (vl (VArray a xs))"
| "Len v = vl v"

definition be_bytes :: "nat \<Rightarrow> nat \<Rightarrow> bytes" where
  "be_bytes k n = map (\<lambda>i. of_nat (n div 2 ^ (8 * (k - 1 - i)))) [0..<k]"

definition marshalSize :: "nat \<Rightarrow> byte \<Rightarrow> byte \<Rightarrow> bytes \<Rightarrow> bytes" where
  "marshalSize l short long dst =
     (if l < 56 then dst @ [short + of_nat l]
      else dst @ [long + of_nat (intsize l)] @ be_bytes (intsize l) l)"

fun MarshalTo :: "'a rvalue \<Rightarrow> bytes \<Rightarrow> bytes" where
  "MarshalTo (VBytes a b) dst =
     (if length b = 1 \<and> hd b \<le> 0x7F then dst @ b
      else if length b < 56 then dst @ [0x80 + of_nat (length b)] @ b
      else marshalSize (length b) 0x80 0xB7 dst @ b)"
| "MarshalTo (VArray a xs) dst =
     fold MarshalTo xs (marshalSize (sum_list (map fullLen xs)) 0xC0 0xF7 dst)"
| "MarshalTo VNull dst = dst @ [0x80]"

definition NewCopyBytes :: "'a \<Rightarrow> bytes \<Rightarrow> 'a rvalue" where
  "NewCopyBytes a b = VBytes a b"

definition NewBytes :: "'a \<Rightarrow> bytes \<Rightarrow> 'a rvalue" where
  "NewBytes a b = VBytes a b"

section \<open>Nodes\<close>

text \<open>
  Modelled from the spec: the node types and their methods \<open>Hash\<close> and \<open>SetHash\<close> are
  declared in a file of the package that is not at hand. The spec's data model has a
  value node, a short node (key and child), a full node (sixteen optional children and an
  optional value) and a hash reference; short and full nodes carry an optional cached
  digest. \<open>OtherNode\<close> stands for any further implementation of the \<open>Node\<close> interface,
  which the type switches of the hasher send to their default branch.
\<close>

datatype node =
    ValueNode bytes
  | ShortNode "bytes option" bytes node
  | FullNode "bytes option" "node option list" "node option"
  | HashReference bytes
  | OtherNode

fun node_Hash :: "node \<Rightarrow> bytes option" where
  "node_Hash (ValueNode b) = None"
| "node_Hash (ShortNode hsh key child) = hsh"
| "node_Hash (FullNode hsh children val) = hsh"
| "node_Hash (HashReference dg) = Some dg"
| "node_Hash OtherNode = None"

text \<open>\<open>SetHash\<close> stores a copy of the digest on the node and returns the stored copy.
  The walk calls it on short and full nodes only.\<close>

fun node_SetHash :: "node \<Rightarrow> bytes \<Rightarrow> node \<times> bytes" where
  "node_SetHash (ShortNode hsh key child) b = (ShortNode (Some b) key child, b)"
| "node_SetHash (FullNode hsh children val) b = (FullNode (Some b) children val, b)"
| "node_SetHash n b = (n, b)"

section \<open>The hasher, the arena pool and the batch\<close>

type_synonym arena = nat

text \<open>
  \<open>hashImpl\<close> is the interface the hasher is built on. Every use in this file resets the
  hash, writes one byte string and then either reads the digest into the 32-byte array
  \<open>tmp\<close> or asks for \<open>Sum(nil)\<close>; both are functions of the bytes written. \<open>Read\<close> yields
  the bytes it delivered (their number is the \<open>n\<close> it reports) and whether it reported an
  error.
\<close>

record hashImpl =
  Read :: "bytes \<Rightarrow> bytes \<times> bool"
  Sum :: "bytes \<Rightarrow> bytes"

text \<open>
  The state one commit works on: the fields \<open>arena\<close>, \<open>buf\<close>, \<open>hash\<close> and \<open>tmp\<close> of the
  hasher \<open>h\<close>, the package-level \<open>arenaPool\<close>, and the batch of the transaction
  (\<open>None\<close> is the nil batch). An arena is named by the number of the \<open>Get\<close> that handed it
  out; \<open>pool_put\<close> lists the arenas handed back by \<open>Put\<close>, oldest first.
\<close>

record state =
  h_arena :: "arena list"
  h_buf :: bytes
  h_hash :: hashImpl
  h_tmp :: bytes
  pool_fresh :: arena
  pool_put :: "arena list"
  batch :: "(bytes \<times> bytes) list option"

definition ReleaseArenas :: "nat \<Rightarrow> state \<Rightarrow> state" where
  "ReleaseArenas idx st =
     st\<lparr>pool_put := pool_put st @ drop idx (h_arena st), h_arena := take idx (h_arena st)\<rparr>"

definition AcquireArena :: "state \<Rightarrow> arena \<times> nat \<times> state" where
  "AcquireArena st =
     (let v = pool_fresh st;
          idx = length (h_arena st)
      in (v, idx, st\<lparr>pool_fresh := Suc v, h_arena := h_arena st @ [v]\<rparr>))"

definition hasher_Hash :: "bytes \<Rightarrow> state \<Rightarrow> (bytes \<times> state) outcome" where
  "hasher_Hash data st =
     (case Read (h_hash st) data of
        (out, err) \<Rightarrow>
          if err then Panic ''read error''
          else if length out \<noteq> 32 then Panic ''incorrect length''
          else Ret (out, st\<lparr>h_tmp := out\<rparr>))"

definition batch_Put :: "bytes \<Rightarrow> bytes \<Rightarrow> state \<Rightarrow> state" where
  "batch_Put k v st = st\<lparr>batch := map_option (\<lambda>b. b @ [(k, v)]) (batch st)\<rparr>"

definition emptyRoot :: bytes where
  "emptyRoot =
     [0x56, 0xe8, 0x1f, 0x17, 0x1b, 0xcc, 0x55, 0xa6, 0xff, 0x83, 0x45, 0xe6, 0x92, 0xc0, 0xf8, 0x6e,
      0x5b, 0x48, 0xe0, 0x1b, 0x99, 0x6c, 0xad, 0xc0, 0x01, 0x62, 0x2f, 0xb5, 0xe3, 0x63, 0xb4, 0x21]"

section \<open>The commit walk\<close>

text \<open>
  Lines 196 to 215 of the walk, shared by the short and the full node: \<open>val\<close> is the
  composite just built, \<open>aa\<close> the checkpoint of the children's arena when one was taken.
\<close>

definition hash_tail ::
  "node \<Rightarrow> arena rvalue \<Rightarrow> arena \<Rightarrow> nat option \<Rightarrow> state \<Rightarrow> (arena rvalue \<times> node \<times> state) outcome"
where
  "hash_tail node val a aa st =
     (if Len val < 32 then Ret (val, node, st)
      else
        let st1 = st\<lparr>h_buf := MarshalTo val []\<rparr>;
            st2 = (case aa of None \<Rightarrow> st1 | Some idx \<Rightarrow> ReleaseArenas idx st1)
        in case hasher_Hash (h_buf st2) st2 of
             Panic p \<Rightarrow> Panic p
           | Ret (tmp, st3) \<Rightarrow>
               (case node_SetHash node tmp of
                  (node', hh) \<Rightarrow>
                    let st4 = (if batch st3 \<noteq> None then batch_Put tmp (h_buf st3) st3 else st3)
                    in Ret (NewCopyBytes a hh, node', st4)))"

text \<open>
  \<open>Txn_hash\<close> is the recursive walk; \<open>hash_children\<close> is its loop over the children of a
  full node, which sets one item per child in slot order. Both return the nodes with the
  digests cached by the walk. The cached-digest test comes first for every node; the type
  switch follows.
\<close>

fun Txn_hash ::
    "(bytes \<Rightarrow> bytes) \<Rightarrow> node \<Rightarrow> arena \<Rightarrow> nat \<Rightarrow> state \<Rightarrow> (arena rvalue \<times> node \<times> state) outcome"
  and hash_children ::
    "(bytes \<Rightarrow> bytes) \<Rightarrow> node option list \<Rightarrow> arena \<Rightarrow> arena \<Rightarrow> nat \<Rightarrow> state
       \<Rightarrow> (arena rvalue list \<times> node option list \<times> state) outcome"
where
  "Txn_hash encodeCompact (ValueNode b) a d st =
     (case node_Hash (ValueNode b) of
        Some hh \<Rightarrow> Ret (NewCopyBytes a hh, ValueNode b, st)
      | None \<Rightarrow> Ret (NewCopyBytes a b, ValueNode b, st))"
| "Txn_hash encodeCompact (HashReference dg) a d st =
     (case node_Hash (HashReference dg) of
        Some hh \<Rightarrow> Ret (NewCopyBytes a hh, HashReference dg, st)
      | None \<Rightarrow> Panic ''unknown node type'')"
| "Txn_hash encodeCompact OtherNode a d st =
     (case node_Hash OtherNode of
        Some hh \<Rightarrow> Ret (NewCopyBytes a hh, OtherNode, st)
      | None \<Rightarrow> Panic ''unknown node type'')"
| "Txn_hash encodeCompact (ShortNode hsh key child) a d st =
     (case node_Hash (ShortNode hsh key child) of
        Some hh \<Rightarrow> Ret (NewCopyBytes a hh, ShortNode hsh key child, st)
      | None \<Rightarrow>
          (case Txn_hash encodeCompact child a (d + 1) st of
             Panic p \<Rightarrow> Panic p
           | Ret (childv, child', st1) \<Rightarrow>
               hash_tail (ShortNode hsh key child')
                 (VArray a [NewBytes a (encodeCompact key), childv]) a None st1))"
| "Txn_hash encodeCompact (FullNode hsh children val) a d st =
     (case node_Hash (FullNode hsh children val) of
        Some hh \<Rightarrow> Ret (NewCopyBytes a hh, FullNode hsh children val, st)
      | None \<Rightarrow>
          (case AcquireArena st of
             (aa, idx, st1) \<Rightarrow>
               (case hash_children encodeCompact children a aa d st1 of
                  Panic p \<Rightarrow> Panic p
                | Ret (items, children', st2) \<Rightarrow>
                    (case val of
                       None \<Rightarrow>
                         hash_tail (FullNode hsh children' None)
                           (VArray a (items @ [VNull])) a (Some idx) st2
                     | Some vn \<Rightarrow>
                         (case Txn_hash encodeCompact vn a (d + 1) st2 of
                            Panic p \<Rightarrow> Panic p
                          | Ret (vv, vn', st3) \<Rightarrow>
                              hash_tail (FullNode hsh children' (Some vn'))
                                (VArray a (items @ [vv])) a (Some idx) st3)))))"
| "hash_children encodeCompact [] a aa d st = Ret ([], [], st)"
| "hash_children encodeCompact (None # rest) a aa d st =
     (case hash_children encodeCompact rest a aa d st of
        Panic p \<Rightarrow> Panic p
      | Ret (items, rest', st') \<Rightarrow> Ret (VNull # items, None # rest', st'))"
| "hash_children encodeCompact (Some i # rest) a aa d st =
     (case Txn_hash encodeCompact i aa (d + 1) st of
        Panic p \<Rightarrow> Panic p
      | Ret (v, i', st1) \<Rightarrow>
          (case hash_children encodeCompact rest a aa d st1 of
             Panic p \<Rightarrow> Panic p
           | Ret (items, rest', st') \<Rightarrow> Ret (v # items, Some i' # rest', st')))"

text \<open>
  The top-level entry point. \<open>got\<close> tells whether the object taken from the hasher pool
  is a hasher; \<open>st\<close> holds that hasher's fields. The result is the pair the Go function
  returns, as a sum (\<open>Inl\<close> the error), with the root node as the walk left it.
\<close>

definition Txn_Hash ::
  "(bytes \<Rightarrow> bytes) \<Rightarrow> node option \<Rightarrow> bool \<Rightarrow> state
     \<Rightarrow> ((string + bytes) \<times> node option \<times> state) outcome"
where
  "Txn_Hash encodeCompact root got st =
     (case root of
        None \<Rightarrow> Ret (Inr emptyRoot, None, st)
      | Some r \<Rightarrow>
          if \<not> got then Ret (Inl ''invalid type assertion'', Some r, st)
          else
            (case AcquireArena st of
               (arena, _, st1) \<Rightarrow>
                 (case Txn_hash encodeCompact r arena 0 st1 of
                    Panic p \<Rightarrow> Panic p
                  | Ret (val, r', st2) \<Rightarrow>
                      (case
                         (if Type val = TypeBytes then
                            (if Len val \<noteq> 32 then
                               (let rt = Sum (h_hash st2) (Raw val)
                                in (rt, if batch st2 \<noteq> None then batch_Put rt (Raw val) st2 else st2))
                             else (Raw val, st2))
                          else
                            (let tmp = MarshalTo val [];
                                 rt = Sum (h_hash st2) tmp
                             in (rt, if batch st2 \<noteq> None then batch_Put rt tmp st2 else st2)))
                       of (rt, st3) \<Rightarrow> Ret (Inr rt, Some r', ReleaseArenas 0 st3)))))"

section \<open>Proof material\<close>

text \<open>
  Modelled from the spec: the \<open>copy\<close> methods of the short and the full node are declared
  with the node types; a copy is a structural copy, with the fields of the original.
  \<open>bytesToHexNibbles\<close> belongs to the key encoding of the package and is a parameter.
\<close>

definition node_copy :: "node \<Rightarrow> node" where
  "node_copy n = n"

fun hashShortNodeChildren :: "(bytes \<Rightarrow> bytes) \<Rightarrow> node \<Rightarrow> node \<times> node" where
  "hashShortNodeChildren bytesToHexNibbles (ShortNode hsh key child) =
     (case (node_copy (ShortNode hsh key child), node_copy (ShortNode hsh key child)) of
        (ShortNode chsh ckey cchild, cached) \<Rightarrow>
          (ShortNode chsh (bytesToHexNibbles key) cchild, cached)
      | (collapsed, cached) \<Rightarrow> (collapsed, cached))"
| "hashShortNodeChildren bytesToHexNibbles n = (n, n)"

definition hashFullNodeChildren :: "node \<Rightarrow> node \<times> node" where
  "hashFullNodeChildren n = (node_copy n, node_copy n)"

definition shortnodeToHash :: "node \<Rightarrow> bool \<Rightarrow> node option" where
  "shortnodeToHash sn force = None"

definition fullnodeToHash :: "node \<Rightarrow> bool \<Rightarrow> node option" where
  "fullnodeToHash fn force = None"

text \<open>\<open>proofHash\<close> returns the collapsed node and the hashed node; the second is a Go
  interface value, \<open>None\<close> when it is nil. It reads and writes no field of the hasher.\<close>

fun proofHash :: "(bytes \<Rightarrow> bytes) \<Rightarrow> node \<Rightarrow> node \<times> node option" where
  "proofHash bytesToHexNibbles (ShortNode hsh key child) =
     (case hashShortNodeChildren bytesToHexNibbles (ShortNode hsh key child) of
        (sn, _) \<Rightarrow> (sn, shortnodeToHash sn False))"
| "proofHash bytesToHexNibbles (FullNode hsh children val) =
     (case hashFullNodeChildren (FullNode hsh children val) of
        (fn, _) \<Rightarrow> (fn, fullnodeToHash fn False))"
| "proofHash bytesToHexNibbles n = (n, Some n)"

section \<open>The reference encoding\<close>

text \<open>
  The encoded value of a node as the spec describes it, a function of the node and the
  hash primitive alone: a cached digest or a hash reference is wrapped as it is, a value
  node gives its bytes, a short node the two-item list of compact key and child, a full
  node the list of its children's slots in index order followed by the value slot; a list
  whose length reaches 32 is replaced by the digest of its encoding.
\<close>

definition spec_seal :: "hashImpl \<Rightarrow> unit rvalue \<Rightarrow> unit rvalue" where
  "spec_seal hi c = (if Len c < 32 then c else VBytes () (fst (Read hi (MarshalTo c []))))"

fun spec_value :: "hashImpl \<Rightarrow> (bytes \<Rightarrow> bytes) \<Rightarrow> node \<Rightarrow> unit rvalue" where
  "spec_value hi ec (ValueNode b) = VBytes () b"
| "spec_value hi ec (HashReference dg) = VBytes () dg"
| "spec_value hi ec OtherNode = VNull"
| "spec_value hi ec (ShortNode (Some dg) key child) = VBytes () dg"
| "spec_value hi ec (ShortNode None key child) =
     spec_seal hi (VArray () [VBytes () (ec key), spec_value hi ec child])"
| "spec_value hi ec (FullNode (Some dg) children val) = VBytes () dg"
| "spec_value hi ec (FullNode None children val) =
     spec_seal hi
       (VArray ()
          (map (\<lambda>c. case c of None \<Rightarrow> VNull | Some n \<Rightarrow> spec_value hi ec n) children
           @ [case val of None \<Rightarrow> VNull | Some n \<Rightarrow> spec_value hi ec n]))"

section \<open>Notions used by the statements\<close>

abbreviation strip :: "'a rvalue \<Rightarrow> unit rvalue" where
  "strip \<equiv> map_rvalue (\<lambda>_. ())"

abbreviation spec_slot :: "hashImpl \<Rightarrow> (bytes \<Rightarrow> bytes) \<Rightarrow> node option \<Rightarrow> unit rvalue" where
  "spec_slot hi ec c \<equiv> (case c of None \<Rightarrow> VNull | Some n \<Rightarrow> spec_value hi ec n)"

text \<open>The first component of what \<open>Txn_Hash\<close> returns: the root or the error, or the panic.\<close>

definition root_of :: "((string + bytes) \<times> node option \<times> state) outcome \<Rightarrow> (string + bytes) outcome" where
  "root_of r = map_outcome fst r"

text \<open>The state with the batch detached.\<close>

definition erase :: "state \<Rightarrow> state" where
  "erase st = st\<lparr>batch := None\<rparr>"

abbreviation erase3 :: "('a \<times> 'b \<times> state) outcome \<Rightarrow> ('a \<times> 'b \<times> state) outcome" where
  "erase3 \<equiv> map_outcome (\<lambda>(v, n, s). (v, n, erase s))"

text \<open>
  The list built for a short or a full node before the size test, as the spec describes
  it: compact key and child, or the children's slots in index order and the value slot.
\<close>

fun spec_composite :: "hashImpl \<Rightarrow> (bytes \<Rightarrow> bytes) \<Rightarrow> node \<Rightarrow> unit rvalue" where
  "spec_composite hi ec (ShortNode hsh key child) =
     VArray () [VBytes () (ec key), spec_value hi ec child]"
| "spec_composite hi ec (FullNode hsh children val) =
     VArray () (map (spec_slot hi ec) children @ [spec_slot hi ec val])"
| "spec_composite hi ec n = VNull"

fun is_composite :: "node \<Rightarrow> bool" where
  "is_composite (ShortNode hsh key child) = True"
| "is_composite (FullNode hsh children val) = True"
| "is_composite n = False"

text \<open>\<open>puts st ws st'\<close>: the batch of \<open>st'\<close> is that of \<open>st\<close> with the writes \<open>ws\<close> appended
  (nothing when the batch is nil). \<open>writes_ok\<close>: every write is a 32-byte digest read from
  the hash primitive together with the at least 32 bytes it is the digest of.\<close>

definition puts :: "state \<Rightarrow> (bytes \<times> bytes) list \<Rightarrow> state \<Rightarrow> bool" where
  "puts st ws st' = (batch st' = map_option (\<lambda>b. b @ ws) (batch st))"

definition writes_ok :: "hashImpl \<Rightarrow> (bytes \<times> bytes) list \<Rightarrow> bool" where
  "writes_ok hi ws =
     (\<forall>(k, bs) \<in> set ws. length k = 32 \<and> 32 \<le> length bs \<and> Read hi bs = (k, False))"




text \<open>
  \<open>arenas_step st st'\<close>: between the two states the hasher's arena list has only grown at
  its end, the pool has only received arenas, and the arenas taken from the pool in
  between are exactly those now at the end of the list or handed back.
\<close>

definition arenas_step :: "state \<Rightarrow> state \<Rightarrow> bool" where
  "arenas_step st st' =
     (\<exists>held rel. h_arena st' = h_arena st @ held \<and> pool_put st' = pool_put st @ rel
        \<and> set held \<union> set rel = {pool_fresh st..<pool_fresh st'}
        \<and> pool_fresh st \<le> pool_fresh st')"

text \<open>\<open>idle st st'\<close>: between the two states nothing was hashed and nothing was written: the
  hash primitive, the buffer, the digest array and the batch are the same.\<close>

definition idle :: "state \<Rightarrow> state \<Rightarrow> bool" where
  "idle st st' =
     (h_hash st' = h_hash st \<and> h_buf st' = h_buf st \<and> h_tmp st' = h_tmp st \<and> batch st' = batch st)"




section \<open>Sample inputs\<close>



















section \<open>The serializer: sizes and arena independence\<close>

lemma fullLen_map [simp]: "fullLen (map_rvalue f v) = fullLen v"
proof (induction v)
  case (VArray a xs)
  then have m: "map (fullLen \<circ> map_rvalue f) xs = map fullLen xs" by simp
  show ?case by (simp add: Let_def m)
next
  case (VBytes a b) show ?case by simp
qed simp






lemma length_be_bytes [simp]: "length (be_bytes k n) = k"
  by (simp add: be_bytes_def)




section \<open>The walk computes the reference encoding\<close>






section \<open>The batch does not influence the walk\<close>

lemma erase_fields [simp]:
  "h_arena (erase st) = h_arena st" "h_buf (erase st) = h_buf st" "h_hash (erase st) = h_hash st"
  "h_tmp (erase st) = h_tmp st" "pool_fresh (erase st) = pool_fresh st"
  "pool_put (erase st) = pool_put st" "batch (erase st) = None"
  by (simp_all add: erase_def)

lemma hash_tail_erase:
  "hash_tail node val a aa (erase st) = erase3 (hash_tail node val a aa st)"
  by (cases aa; cases node)
     (auto simp: hash_tail_def hasher_Hash_def ReleaseArenas_def batch_Put_def erase_def Let_def
           split: prod.splits outcome.splits option.splits)

lemma AcquireArena_erase:
  "AcquireArena (erase st) = (case AcquireArena st of (aa, idx, st1) \<Rightarrow> (aa, idx, erase st1))"
  by (simp add: AcquireArena_def erase_def Let_def)

lemma walk_erase:
  "Txn_hash ec n a d (erase st) = erase3 (Txn_hash ec n a d st)"
  "hash_children ec cs a aa d (erase st) = erase3 (hash_children ec cs a aa d st)"
proof (induction ec n a d st and ec cs a aa d st rule: Txn_hash_hash_children.induct)
  case (4 ec hsh key child a d st)
  show ?case
  proof (cases hsh)
    case None
    show ?thesis
    proof (cases "Txn_hash ec child a (d + 1) st")
      case (Panic p)
      with 4 None show ?thesis by simp
    next
      case (Ret r)
      obtain cv c' st1 where r: "r = (cv, c', st1)" by (cases r)
      with 4 None Ret show ?thesis by (simp add: hash_tail_erase)
    qed
  qed simp
next
  case (5 ec hsh children val a d st)
  show ?case
  proof (cases hsh)
    case None
    obtain aa idx st1 where acq: "AcquireArena st = (aa, idx, st1)" by (cases "AcquireArena st")
    then have acqe: "AcquireArena (erase st) = (aa, idx, erase st1)" by (simp add: AcquireArena_erase)
    have ih1: "hash_children ec children a aa d (erase st1) = erase3 (hash_children ec children a aa d st1)"
      using 5(1) [OF _ acq [symmetric] refl] None by simp
    show ?thesis
    proof (cases "hash_children ec children a aa d st1")
      case (Panic p)
      with None acq acqe ih1 show ?thesis by simp
    next
      case (Ret r)
      obtain items cs' st2 where r: "r = (items, cs', st2)" by (cases r)
      note hc = Ret [unfolded r]
      show ?thesis
      proof (cases val)
        case vNone: None
        with None acq acqe ih1 hc show ?thesis by (simp add: hash_tail_erase)
      next
        case (Some vn)
        have ih2: "Txn_hash ec vn a (d + 1) (erase st2) = erase3 (Txn_hash ec vn a (d + 1) st2)"
          using 5(2) [OF _ acq [symmetric] refl hc refl refl Some] None by simp
        show ?thesis
        proof (cases "Txn_hash ec vn a (d + 1) st2")
          case (Panic p)
          with None acq acqe ih1 hc Some ih2 show ?thesis by simp
        next
          case Ret2: (Ret r2)
          obtain vv vn' st3 where r2: "r2 = (vv, vn', st3)" by (cases r2)
          with None acq acqe ih1 hc Some ih2 Ret2 show ?thesis by (simp add: hash_tail_erase)
        qed
      qed
    qed
  qed simp
next
  case (7 ec rest a aa d st)
  then show ?case by (cases "hash_children ec rest a aa d st") auto
next
  case (8 ec i rest a aa d st)
  show ?case
  proof (cases "Txn_hash ec i aa (d + 1) st")
    case (Panic p)
    with 8(1) show ?thesis by simp
  next
    case (Ret r)
    obtain v1 i' st1 where r: "r = (v1, i', st1)" by (cases r)
    note w = Ret [unfolded r]
    from 8(2) [OF w refl refl] have ih2: "hash_children ec rest a aa d (erase st1) = erase3 (hash_children ec rest a aa d st1)" .
    with 8(1) w show ?thesis by (cases "hash_children ec rest a aa d st1") auto
  qed
qed simp_all

lemma ReleaseArenas_erase: "ReleaseArenas idx (erase st) = erase (ReleaseArenas idx st)"
  by (simp add: ReleaseArenas_def erase_def)

lemma erase_batch_Put: "erase (batch_Put k v st) = erase st"
  by (simp add: batch_Put_def erase_def)

lemma erase_Release_Put:
  "erase (ReleaseArenas idx (batch_Put k v st)) = erase (ReleaseArenas idx st)"
  by (simp add: ReleaseArenas_def batch_Put_def erase_def)

lemma Txn_Hash_erase:
  "Txn_Hash ec root got (erase st) = erase3 (Txn_Hash ec root got st)"
proof (cases root)
  case None
  then show ?thesis by (simp add: Txn_Hash_def)
next
  case (Some r)
  show ?thesis
  proof (cases got)
    case False
    with Some show ?thesis by (simp add: Txn_Hash_def)
  next
    case True
    obtain ar idx st1 where acq: "AcquireArena st = (ar, idx, st1)" by (cases "AcquireArena st")
    then have acqe: "AcquireArena (erase st) = (ar, idx, erase st1)" by (simp add: AcquireArena_erase)
    show ?thesis
    proof (cases "Txn_hash ec r ar 0 st1")
      case (Panic p)
      with Some True acq acqe show ?thesis by (simp add: Txn_Hash_def walk_erase)
    next
      case (Ret x)
      obtain val r' st2 where x: "x = (val, r', st2)" by (cases x)
      with Some True acq acqe Ret show ?thesis
        by (simp add: Txn_Hash_def walk_erase Let_def ReleaseArenas_erase erase_Release_Put)
    qed
  qed
qed

text \<open>
  Claim C10. The root (or the error, or the panic) that the top-level \<open>Hash\<close> produces is
  the same with a nil batch and with any batch attached, all else being equal.
\<close>

theorem Txn_Hash_batch_independent:
  "root_of (Txn_Hash encodeCompact root got (st\<lparr>batch := None\<rparr>))
     = root_of (Txn_Hash encodeCompact root got (st\<lparr>batch := Some b\<rparr>))"
proof -
  have "erase (st\<lparr>batch := Some b\<rparr>) = st\<lparr>batch := None\<rparr>" by (simp add: erase_def)
  with Txn_Hash_erase [of encodeCompact root got "st\<lparr>batch := Some b\<rparr>"]
  show ?thesis by (simp add: root_of_def outcome.map_comp comp_def split_def)
qed

section \<open>Writes to the batch\<close>

lemma puts_refl [simp]: "puts st [] st"
  by (simp add: puts_def option.map_ident)


lemma puts_batch_eq: "batch st1 = batch st \<Longrightarrow> puts st1 ws st' = puts st ws st'"
  by (simp add: puts_def)

lemma writes_ok_append [simp]: "writes_ok hi (ws1 @ ws2) \<longleftrightarrow> writes_ok hi ws1 \<and> writes_ok hi ws2"
  by (auto simp: writes_ok_def)

lemma writes_ok_Nil [simp]: "writes_ok hi []"
  by (simp add: writes_ok_def)



section \<open>Arenas\<close>

lemma arenas_step_refl [simp]: "arenas_step st st"
  by (auto simp: arenas_step_def)









section \<open>A walk that returns a small value has written nothing\<close>


lemma fullLen_digest: "length dg = 32 \<Longrightarrow> fullLen (VBytes a dg) = 33"
  by simp



section \<open>Inlining and hashing\<close>

lemma spec_value_composite:
  "is_composite n \<Longrightarrow> node_Hash n = None
     \<Longrightarrow> spec_value hi ec n = spec_seal hi (spec_composite hi ec n)"
  by (cases n) auto








section \<open>Full nodes\<close>

lemma strip_null [simp]: "strip v = VNull \<longleftrightarrow> v = VNull"
  by (cases v) simp_all












section \<open>The root\<close>










section \<open>Cached digests and the second commit\<close>

lemma idle_refl [simp]: "idle st st"
  by (simp add: idle_def)














section \<open>Faults\<close>










section \<open>The empty trie\<close>

text \<open>
  Claim C5. When the root is absent, the top-level \<open>Hash\<close> returns the fixed 32-byte
  empty-trie digest with no error; the state is returned as it was, so no arena is taken,
  nothing is hashed and nothing is written to the batch.
\<close>

theorem Txn_Hash_empty_root:
  "Txn_Hash encodeCompact None got st = Ret (Inr emptyRoot, None, st) \<and> length emptyRoot = 32"
  by (simp add: Txn_Hash_def emptyRoot_def)

section \<open>Proof material\<close>

text \<open>
  Claim C9. For a value node and for a hash reference, \<open>proofHash\<close> returns the node
  itself as the collapsed and as the hashed component. The function takes no state and
  returns none, and it succeeds on these inputs.
\<close>

theorem proofHash_leaf:
  "proofHash bytesToHexNibbles (ValueNode b) = (ValueNode b, Some (ValueNode b))
   \<and> proofHash bytesToHexNibbles (HashReference dg) = (HashReference dg, Some (HashReference dg))"
  by simp

text \<open>
  Claim C8. For a short node, the claim asks for a collapsed copy whose child is in
  referenced form and for a hashed component that is the digest or the small node itself.
  The code returns the copy with its key rewritten by \<open>bytesToHexNibbles\<close> and its child
  untouched, and a nil hashed component, whatever the size of the node.
\<close>

theorem proofHash_short_returns_nil:
  "proofHash bytesToHexNibbles (ShortNode hsh key child)
     = (ShortNode hsh (bytesToHexNibbles key) child, None)"
  by (simp add: node_copy_def shortnodeToHash_def)

end
